theory Spec2Isabelle
  imports Main
begin

section \<open>Standard dialogs of the GTK backend (unix/stddialogs.c)\<close>

text \<open>
  The file is a thin layer over GTK: every function builds a dialog object through a
  sequence of toolkit calls, runs it, and hands back what the toolkit reports. The
  embedding keeps that shape. A dialog is a record of the properties the calls set, the
  toolkit calls are functions that update it, and the two values that come back from the
  toolkit while the dialog runs (the response code and the chosen file name) are inputs of
  the model. Memory errors of the C code (an array read past its end, a write past the end
  of the pattern buffer) are values of the type \<open>fault\<close>.
\<close>

subsection \<open>C integers and C strings\<close>

text \<open>
  \<open>int\<close> is 32 bits wide on every platform GTK runs on. Values of that type are HOL
  integers between \<open>INT_MIN\<close> and \<open>INT_MAX\<close>. \<open>int32\<close> is the conversion of a wider
  integer to \<open>int\<close>: implementation-defined in C, and reduction modulo 4294967296 in every
  compiler GTK is built with. \<open>size_t\<close> is the conversion of an \<open>int\<close> to the unsigned 64-bit
  type of allocation sizes. An \<open>int\<close> addition whose result leaves the range has no defined
  behaviour in C; the model stops there with the fault \<open>SignedOverflow\<close> instead of picking
  a result.
\<close>

definition INT_MAX :: int where
  "INT_MAX = 2147483647"

definition int32 :: "int \<Rightarrow> int" where
  "int32 x = (x + 2147483648) mod 4294967296 - 2147483648"

definition size_t :: "int \<Rightarrow> nat" where
  "size_t x = nat (x mod 18446744073709551616)"

text \<open>
  A \<open>const char *\<close> argument is the list of bytes stored from the pointer on, with the
  terminating NUL left implicit at the end of the list. The string a C function sees
  stops at the first NUL byte.
\<close>

definition NUL :: char where
  "NUL = CHR 0x00"

definition c_str :: "string \<Rightarrow> string" where
  "c_str s = takeWhile (\<lambda>c. c \<noteq> NUL) s"

definition strlen :: "string \<Rightarrow> nat" where
  "strlen s = length (c_str s)"

datatype fault = ReadOutOfBounds | WriteOutOfBounds | SignedOverflow

subsection \<open>Data\<close>

text \<open>
  \<open>uiFileTypeFilter\<close> is declared in ui.h; stddialogs.c reads the three fields below. An
  array argument is the list of its elements, and its length travels beside it as in C.
\<close>

record uiFileTypeFilter =
  name :: string
  extensions :: "string list"
  extensions_len :: int

type_synonym GtkWindow = nat

datatype uiWindow = uiWindow (uiControlHandle: GtkWindow)

datatype GtkFileChooserAction =
    GTK_FILE_CHOOSER_ACTION_OPEN
  | GTK_FILE_CHOOSER_ACTION_SAVE
  | GTK_FILE_CHOOSER_ACTION_SELECT_FOLDER

datatype GtkMessageType = GTK_MESSAGE_ERROR | GTK_MESSAGE_OTHER

datatype GtkButtonsType = GTK_BUTTONS_OK

datatype GtkDialogFlags = GTK_DIALOG_MODAL

definition GTK_RESPONSE_ACCEPT :: int where
  "GTK_RESPONSE_ACCEPT = - 3"

definition GTK_RESPONSE_CANCEL :: int where
  "GTK_RESPONSE_CANCEL = - 6"

text \<open>
  A \<open>GtkFileFilter\<close> object: its display name and the glob patterns added to it. Filter
  objects live in a store and are referred to by their index there, since the chooser and
  the loop that fills a filter share the same object.
\<close>

record GtkFileFilter =
  filter_name :: "string option"
  patterns :: "string list"

text \<open>
  The file chooser dialog. A property the program never sets is \<open>None\<close> (the toolkit's
  default applies). \<open>fc_filters\<close> lists the filter objects handed to
  \<open>gtk_file_chooser_add_filter\<close>, one entry per call, in call order.
\<close>

record GtkFileChooserDialog =
  fc_title :: "string option"
  fc_parent :: "GtkWindow option"
  fc_action :: GtkFileChooserAction
  fc_buttons :: "(string \<times> int) list"
  local_only :: "bool option"
  select_multiple :: "bool option"
  show_hidden :: "bool option"
  do_overwrite_confirmation :: "bool option"
  create_folders :: "bool option"
  fc_filters :: "nat list"

record GtkMessageDialog =
  md_parent :: "GtkWindow option"
  md_flags :: GtkDialogFlags
  md_type :: GtkMessageType
  md_buttons :: GtkButtonsType
  md_text :: string
  md_secondary_text :: "string option"

text \<open>
  What the toolkit returns while a file dialog is on screen: the value of
  \<open>gtk_dialog_run\<close> and the value of \<open>gtk_file_chooser_get_filename\<close> (a null pointer is
  \<open>None\<close>).
\<close>

record interaction =
  gtk_dialog_run :: int
  gtk_file_chooser_get_filename :: "string option"

text \<open>
  The local state of \<open>filedialog\<close>: the dialog, the store of filter objects, and the shared
  pattern buffer (the bytes of the allocation, \<open>None\<close> for the null pointer) with the
  capacity the program tracks for it.
\<close>

record fd_state =
  fcd :: GtkFileChooserDialog
  gfilters :: "GtkFileFilter list"
  pattern :: "char list option"
  pattern_cap :: int

text \<open>What a call of a file dialog function did and returned.\<close>

record fd_result =
  dialog :: GtkFileChooserDialog
  filter_objects :: "GtkFileFilter list"
  returned :: "string option"

subsection \<open>The toolkit and allocator calls\<close>

definition windowWindow :: "uiWindow option \<Rightarrow> GtkWindow option" where
  "windowWindow w = (case w of Some w' \<Rightarrow> Some (uiControlHandle w') | None \<Rightarrow> None)"

definition gtk_file_chooser_dialog_new ::
  "string option \<Rightarrow> GtkWindow option \<Rightarrow> GtkFileChooserAction \<Rightarrow> (string \<times> int) list
    \<Rightarrow> GtkFileChooserDialog" where
  "gtk_file_chooser_dialog_new title parent mode btns =
     \<lparr>fc_title = title, fc_parent = parent, fc_action = mode, fc_buttons = btns,
      local_only = None, select_multiple = None, show_hidden = None,
      do_overwrite_confirmation = None, create_folders = None, fc_filters = []\<rparr>"

definition gtk_file_chooser_set_local_only ::
  "bool \<Rightarrow> GtkFileChooserDialog \<Rightarrow> GtkFileChooserDialog" where
  "gtk_file_chooser_set_local_only b fc = fc\<lparr>local_only := Some b\<rparr>"

definition gtk_file_chooser_set_select_multiple ::
  "bool \<Rightarrow> GtkFileChooserDialog \<Rightarrow> GtkFileChooserDialog" where
  "gtk_file_chooser_set_select_multiple b fc = fc\<lparr>select_multiple := Some b\<rparr>"

definition gtk_file_chooser_set_show_hidden ::
  "bool \<Rightarrow> GtkFileChooserDialog \<Rightarrow> GtkFileChooserDialog" where
  "gtk_file_chooser_set_show_hidden b fc = fc\<lparr>show_hidden := Some b\<rparr>"

definition gtk_file_chooser_set_do_overwrite_confirmation ::
  "bool \<Rightarrow> GtkFileChooserDialog \<Rightarrow> GtkFileChooserDialog" where
  "gtk_file_chooser_set_do_overwrite_confirmation b fc = fc\<lparr>do_overwrite_confirmation := Some b\<rparr>"

definition gtk_file_chooser_set_create_folders ::
  "bool \<Rightarrow> GtkFileChooserDialog \<Rightarrow> GtkFileChooserDialog" where
  "gtk_file_chooser_set_create_folders b fc = fc\<lparr>create_folders := Some b\<rparr>"

definition gtk_file_filter_new :: "fd_state \<Rightarrow> nat \<times> fd_state" where
  "gtk_file_filter_new s =
     (length (gfilters s), s\<lparr>gfilters := gfilters s @ [\<lparr>filter_name = None, patterns = []\<rparr>]\<rparr>)"

definition gtk_file_filter_set_name :: "nat \<Rightarrow> string \<Rightarrow> fd_state \<Rightarrow> fd_state" where
  "gtk_file_filter_set_name g n s =
     s\<lparr>gfilters := (gfilters s)[g := (gfilters s ! g)\<lparr>filter_name := Some n\<rparr>]\<rparr>"

definition gtk_file_filter_add_pattern :: "nat \<Rightarrow> string \<Rightarrow> fd_state \<Rightarrow> fd_state" where
  "gtk_file_filter_add_pattern g p s =
     s\<lparr>gfilters := (gfilters s)[g := (gfilters s ! g)\<lparr>patterns := patterns (gfilters s ! g) @ [p]\<rparr>]\<rparr>"

definition gtk_file_chooser_add_filter :: "nat \<Rightarrow> fd_state \<Rightarrow> fd_state" where
  "gtk_file_chooser_add_filter g s = s\<lparr>fcd := (fcd s)\<lparr>fc_filters := fc_filters (fcd s) @ [g]\<rparr>\<rparr>"

text \<open>
  Modelled from the spec: \<open>uiprivRealloc\<close> is libui's allocator (declared in
  uipriv_unix.h, defined outside this file); the spec calls its use here "manual buffer
  growth for extension patterns". It returns a block of the requested size that keeps the
  old bytes; the bytes beyond them are zero. Only the size of the block matters below
  (\<open>length_uiprivRealloc\<close>): \<open>sprintf\<close> overwrites the contents from the start.
\<close>

definition uiprivRealloc :: "char list option \<Rightarrow> nat \<Rightarrow> char list" where
  "uiprivRealloc p n = take n ((case p of None \<Rightarrow> [] | Some b \<Rightarrow> b) @ replicate n NUL)"

text \<open>
  \<open>sprintf(pattern, "*.%s", ext)\<close>: the formatted bytes and the terminator overwrite the
  beginning of the buffer; the bytes behind them stay as they were. Writing through a null
  pointer or past the end of the allocation is a fault.
\<close>

definition sprintf :: "char list option \<Rightarrow> string \<Rightarrow> fault + char list" where
  "sprintf p ext =
     (let out = ''*.'' @ c_str ext @ [NUL] in
      case p of
        None \<Rightarrow> Inl WriteOutOfBounds
      | Some buf \<Rightarrow>
          if length buf < length out then Inl WriteOutOfBounds
          else Inr (out @ drop (length out) buf))"

subsection \<open>Loops\<close>

text \<open>\<open>for (int i = 0; i < n; i++) body\<close>, stopping at the first fault.\<close>

fun run_loop :: "(nat \<Rightarrow> 's \<Rightarrow> fault + 's) \<Rightarrow> nat list \<Rightarrow> 's \<Rightarrow> fault + 's" where
  "run_loop body [] s = Inr s"
| "run_loop body (i # is) s =
     (case body i s of Inl e \<Rightarrow> Inl e | Inr s' \<Rightarrow> run_loop body is s')"

definition for_loop :: "int \<Rightarrow> (nat \<Rightarrow> 's \<Rightarrow> fault + 's) \<Rightarrow> 's \<Rightarrow> fault + 's" where
  "for_loop n body s = run_loop body [0 ..< nat n] s"

subsection \<open>filedialog\<close>

text \<open>
  The body of the inner loop (lines 33 to 40), for extension \<open>j\<close> of filter \<open>f\<close>.
  \<open>ext_len\<close> is the \<open>size_t\<close> result of \<open>strlen\<close> converted to \<open>int\<close>, and \<open>3 + ext_len\<close> is
  computed in \<open>int\<close>: where the sum exceeds \<open>INT_MAX\<close> the behaviour is undefined and the
  step is the fault \<open>SignedOverflow\<close> (the sum cannot fall below \<open>INT_MIN\<close>). The filter is
  handed to the chooser inside this loop, once for each extension (line 40).
\<close>

definition add_extension :: "uiFileTypeFilter \<Rightarrow> nat \<Rightarrow> nat \<Rightarrow> fd_state \<Rightarrow> fault + fd_state" where
  "add_extension f gfilter j s =
     (if length (extensions f) \<le> j then Inl ReadOutOfBounds
      else
        let ext = extensions f ! j;
            ext_len = int32 (int (strlen ext))
        in if 3 + ext_len > INT_MAX then Inl SignedOverflow
           else
             let s1 = (if 3 + ext_len > pattern_cap s
                       then s\<lparr>pattern := Some (uiprivRealloc (pattern s) (size_t (3 + ext_len))),
                              pattern_cap := 3 + ext_len\<rparr>
                       else s)
             in case sprintf (pattern s1) ext of
                  Inl e \<Rightarrow> Inl e
                | Inr buf \<Rightarrow>
                    Inr (gtk_file_chooser_add_filter gfilter
                          (gtk_file_filter_add_pattern gfilter (c_str buf)
                            (s1\<lparr>pattern := Some buf\<rparr>))))"

text \<open>The body of the outer loop (lines 30 to 41), for filter \<open>i\<close>.\<close>

definition add_filter :: "uiFileTypeFilter list \<Rightarrow> nat \<Rightarrow> fd_state \<Rightarrow> fault + fd_state" where
  "add_filter filters i s =
     (if length filters \<le> i then Inl ReadOutOfBounds
      else
        let f = filters ! i;
            (gfilter, s1) = gtk_file_filter_new s;
            s2 = gtk_file_filter_set_name gfilter (name f) s1
        in for_loop (extensions_len f) (add_extension f gfilter) s2)"

text \<open>
  \<open>filedialog\<close> itself. The pattern buffer is freed after the loops and the dialog is
  destroyed on both return paths; neither is visible in the result.
\<close>

definition filedialog ::
  "GtkWindow option \<Rightarrow> GtkFileChooserAction \<Rightarrow> string \<Rightarrow> uiFileTypeFilter list \<Rightarrow> int
    \<Rightarrow> interaction \<Rightarrow> fault + fd_result" where
  "filedialog parent mode confirm filters filters_len io =
     (let fc0 = gtk_file_chooser_dialog_new None parent mode
                  [(''_Cancel'', GTK_RESPONSE_CANCEL), (confirm, GTK_RESPONSE_ACCEPT)];
          fc1 = gtk_file_chooser_set_local_only False fc0;
          fc2 = gtk_file_chooser_set_select_multiple False fc1;
          fc3 = gtk_file_chooser_set_show_hidden True fc2;
          fc4 = gtk_file_chooser_set_do_overwrite_confirmation True fc3;
          fc5 = gtk_file_chooser_set_create_folders True fc4
      in case for_loop filters_len (add_filter filters)
                \<lparr>fcd = fc5, gfilters = [], pattern = None, pattern_cap = 0\<rparr> of
           Inl e \<Rightarrow> Inl e
         | Inr s \<Rightarrow>
             Inr \<lparr>dialog = fcd s, filter_objects = gfilters s,
                  returned = (if gtk_dialog_run io \<noteq> GTK_RESPONSE_ACCEPT then None
                              else gtk_file_chooser_get_filename io)\<rparr>)"

definition uiOpenFile :: "uiWindow option \<Rightarrow> interaction \<Rightarrow> fault + fd_result" where
  "uiOpenFile parent io =
     filedialog (windowWindow parent) GTK_FILE_CHOOSER_ACTION_OPEN ''_Open'' [] 0 io"

definition uiOpenFolder :: "uiWindow option \<Rightarrow> interaction \<Rightarrow> fault + fd_result" where
  "uiOpenFolder parent io =
     filedialog (windowWindow parent) GTK_FILE_CHOOSER_ACTION_SELECT_FOLDER ''_Open'' [] 0 io"

definition uiSaveFile :: "uiWindow option \<Rightarrow> interaction \<Rightarrow> fault + fd_result" where
  "uiSaveFile parent io =
     filedialog (windowWindow parent) GTK_FILE_CHOOSER_ACTION_SAVE ''_Save'' [] 0 io"

definition uiSaveFile2 ::
  "uiWindow option \<Rightarrow> uiFileTypeFilter list \<Rightarrow> int \<Rightarrow> interaction \<Rightarrow> fault + fd_result" where
  "uiSaveFile2 parent filters filters_len io =
     filedialog (windowWindow parent) GTK_FILE_CHOOSER_ACTION_SAVE ''_Save'' filters filters_len io"

subsection \<open>msgbox\<close>

text \<open>
  \<open>msgbox\<close> returns nothing; the value of the model is the dialog that was run and
  destroyed. The format \<open>"%s"\<close> makes the title the primary text as it is.
\<close>

definition msgbox ::
  "GtkWindow option \<Rightarrow> string \<Rightarrow> string \<Rightarrow> GtkMessageType \<Rightarrow> GtkButtonsType \<Rightarrow> GtkMessageDialog" where
  "msgbox parent title description type buttons =
     (let md = \<lparr>md_parent = parent, md_flags = GTK_DIALOG_MODAL, md_type = type,
                md_buttons = buttons, md_text = title, md_secondary_text = None\<rparr>
      in md\<lparr>md_secondary_text := Some description\<rparr>)"

definition uiMsgBox :: "uiWindow option \<Rightarrow> string \<Rightarrow> string \<Rightarrow> GtkMessageDialog" where
  "uiMsgBox parent title description =
     msgbox (windowWindow parent) title description GTK_MESSAGE_OTHER GTK_BUTTONS_OK"

definition uiMsgBoxError :: "uiWindow option \<Rightarrow> string \<Rightarrow> string \<Rightarrow> GtkMessageDialog" where
  "uiMsgBoxError parent title description =
     msgbox (windowWindow parent) title description GTK_MESSAGE_ERROR GTK_BUTTONS_OK"

subsection \<open>Notions used in the statements\<close>

text \<open>
  The filter object the loops build for a filter \<open>f\<close>: its name, and one pattern for each of
  the first \<open>extensions_len f\<close> extensions.
\<close>

definition filter_object :: "uiFileTypeFilter \<Rightarrow> GtkFileFilter" where
  "filter_object f =
     \<lparr>filter_name = Some (name f),
      patterns = map (\<lambda>e. ''*.'' @ c_str e) (take (nat (extensions_len f)) (extensions f))\<rparr>"

text \<open>
  The arguments of the calls of \<open>gtk_file_chooser_add_filter\<close> over the first \<open>n\<close> filters:
  filter object \<open>i\<close>, once for each of its extensions.
\<close>

definition filter_refs :: "uiFileTypeFilter list \<Rightarrow> nat \<Rightarrow> nat list" where
  "filter_refs filters n =
     concat (map (\<lambda>i. replicate (nat (extensions_len (filters ! i))) i) [0 ..< n])"

text \<open>The lengths passed beside the arrays do not exceed the arrays.\<close>

definition in_bounds :: "uiFileTypeFilter list \<Rightarrow> int \<Rightarrow> bool" where
  "in_bounds filters filters_len \<longleftrightarrow>
     nat filters_len \<le> length filters \<and>
     (\<forall>f \<in> set filters. nat (extensions_len f) \<le> length (extensions f))"

text \<open>Every extension is short enough for its length plus 3 to be an \<open>int\<close>.\<close>

definition short_extensions :: "uiFileTypeFilter list \<Rightarrow> bool" where
  "short_extensions filters \<longleftrightarrow>
     (\<forall>f \<in> set filters. \<forall>e \<in> set (extensions f). strlen e + 3 < 2147483648)"

text \<open>No extension has a NUL byte inside, so each one is the C string it denotes.\<close>

definition plain_extensions :: "uiFileTypeFilter list \<Rightarrow> bool" where
  "plain_extensions filters \<longleftrightarrow>
     (\<forall>f \<in> set filters. \<forall>e \<in> set (extensions f). NUL \<notin> set e)"

text \<open>The capacity the program tracks is the size of the allocation.\<close>

definition buf_inv :: "fd_state \<Rightarrow> bool" where
  "buf_inv s \<longleftrightarrow>
     pattern_cap s = int (case pattern s of None \<Rightarrow> 0 | Some b \<Rightarrow> length b)"

text \<open>A loop result that is not a write past the buffer and keeps the invariant.\<close>

definition write_safe :: "fault + fd_state \<Rightarrow> bool" where
  "write_safe r = (case r of Inl e \<Rightarrow> e = ReadOutOfBounds | Inr s \<Rightarrow> buf_inv s)"

text \<open>The dialog as it is when the filter loop starts (lines 16 to 25).\<close>

definition configured ::
  "GtkWindow option \<Rightarrow> GtkFileChooserAction \<Rightarrow> string \<Rightarrow> GtkFileChooserDialog" where
  "configured parent mode confirm =
     \<lparr>fc_title = None, fc_parent = parent, fc_action = mode,
      fc_buttons = [(''_Cancel'', GTK_RESPONSE_CANCEL), (confirm, GTK_RESPONSE_ACCEPT)],
      local_only = Some False, select_multiple = Some False, show_hidden = Some True,
      do_overwrite_confirmation = Some True, create_folders = Some True, fc_filters = []\<rparr>"

definition with_parent :: "GtkWindow option \<Rightarrow> fd_state \<Rightarrow> fd_state" where
  "with_parent p s = s\<lparr>fcd := (fcd s)\<lparr>fc_parent := p\<rparr>\<rparr>"

definition anchored :: "GtkWindow option \<Rightarrow> fd_result \<Rightarrow> fd_result" where
  "anchored p r = r\<lparr>dialog := (dialog r)\<lparr>fc_parent := p\<rparr>\<rparr>"

text \<open>The five flags set on every chooser before it is shown.\<close>

definition fixed_flags :: "GtkFileChooserDialog \<Rightarrow> bool" where
  "fixed_flags fc \<longleftrightarrow>
     local_only fc = Some False \<and> select_multiple fc = Some False \<and>
     show_hidden fc = Some True \<and> do_overwrite_confirmation fc = Some True \<and>
     create_folders fc = Some True"

section \<open>Properties\<close>

subsection \<open>C integers, C strings, the buffer\<close>

lemma int32_id: "- 2147483648 \<le> x \<Longrightarrow> x < 2147483648 \<Longrightarrow> int32 x = x"
  by (simp add: int32_def)

lemma size_t_id: "0 \<le> x \<Longrightarrow> x < 18446744073709551616 \<Longrightarrow> size_t x = nat x"
  by (simp add: size_t_def)

lemma c_str_no_NUL: "NUL \<notin> set (c_str s)"
  by (auto simp: c_str_def dest: set_takeWhileD)

lemma c_str_id: "NUL \<notin> set s \<Longrightarrow> c_str s = s"
  by (auto simp: c_str_def)

lemma c_str_terminated: "NUL \<notin> set a \<Longrightarrow> c_str (a @ NUL # r) = a"
  by (auto simp: c_str_def takeWhile_append)

lemma length_uiprivRealloc: "length (uiprivRealloc p n) = n"
  by (simp add: uiprivRealloc_def split: option.split)

lemma sprintf_Inr:
  assumes "sprintf p ext = Inr b"
  shows "c_str b = ''*.'' @ c_str ext"
proof -
  let ?out = "''*.'' @ c_str ext @ [NUL]"
  from assms obtain buf where b: "b = (''*.'' @ c_str ext) @ NUL # drop (length ?out) buf"
    by (auto simp: sprintf_def Let_def split: option.splits if_splits)
  have "NUL \<notin> set (''*.'' @ c_str ext)"
    using c_str_no_NUL[of ext] by (simp add: NUL_def)
  then show ?thesis unfolding b by (rule c_str_terminated)
qed

lemma sprintf_fits:
  assumes "strlen ext + 3 \<le> length buf"
  shows "\<exists>b. sprintf (Some buf) ext = Inr b \<and> length b = length buf"
  using assms by (simp add: sprintf_def Let_def strlen_def)

lemma sprintf_fault: "sprintf p ext = Inl e \<Longrightarrow> e = WriteOutOfBounds"
  by (auto simp: sprintf_def Let_def split: option.splits if_splits)

subsection \<open>Loops in general\<close>

lemma run_loop_snoc:
  "run_loop body (is @ [i]) s =
     (case run_loop body is s of Inl e \<Rightarrow> Inl e | Inr s' \<Rightarrow> body i s')"
  by (induction "is" arbitrary: s) (auto split: sum.splits)

lemma run_loop_fault:
  "run_loop body is s = Inl e \<Longrightarrow> \<exists>i \<in> set is. \<exists>t. body i t = Inl e"
  by (induction "is" arbitrary: s) (auto split: sum.splits)

lemma run_loop_write_safe:
  assumes "\<And>i t. i \<in> set is \<Longrightarrow> buf_inv t \<Longrightarrow> write_safe (body i t)"
  shows "buf_inv s \<Longrightarrow> write_safe (run_loop body is s)"
  using assms
proof (induction "is" arbitrary: s)
  case Nil
  then show ?case by (simp add: write_safe_def)
next
  case (Cons i "is")
  from Cons.prems have "write_safe (body i s)" by simp
  then show ?case
  proof (cases "body i s")
    case (Inl e)
    with \<open>write_safe (body i s)\<close> show ?thesis by (simp add: write_safe_def)
  next
    case (Inr t)
    with \<open>write_safe (body i s)\<close> have "buf_inv t" by (simp add: write_safe_def)
    then have "write_safe (run_loop body is t)"
      using Cons.prems(2) by (intro Cons.IH) simp_all
    with Inr show ?thesis by simp
  qed
qed

lemma run_loop_map:
  assumes "\<And>i t. body i (h t) = map_sum id h (body i t)"
  shows "run_loop body is (h s) = map_sum id h (run_loop body is s)"
  by (induction "is" arbitrary: s) (auto simp: assms split: sum.splits)

subsection \<open>The inner loop\<close>

lemma add_extension_Inr:
  assumes "add_extension f g j s = Inr s'"
  shows "j < length (extensions f)
     \<and> fcd s' = (fcd s)\<lparr>fc_filters := fc_filters (fcd s) @ [g]\<rparr>
     \<and> gfilters s' = (gfilters s)[g := (gfilters s ! g)\<lparr>patterns :=
           patterns (gfilters s ! g) @ [''*.'' @ c_str (extensions f ! j)]\<rparr>]"
proof -
  from assms have j: "j < length (extensions f)"
    by (auto simp: add_extension_def split: if_splits)
  define ext where "ext = extensions f ! j"
  define n where "n = 3 + int32 (int (strlen ext))"
  from assms j have fits: "\<not> n > INT_MAX"
    by (auto simp: add_extension_def Let_def ext_def n_def split: if_splits)
  define s1 where "s1 = (if n > pattern_cap s
      then s\<lparr>pattern := Some (uiprivRealloc (pattern s) (size_t n)), pattern_cap := n\<rparr>
      else s)"
  have rest: "fcd s1 = fcd s" "gfilters s1 = gfilters s" by (simp_all add: s1_def)
  have eq: "add_extension f g j s =
      (case sprintf (pattern s1) ext of
         Inl e \<Rightarrow> Inl e
       | Inr buf \<Rightarrow> Inr (gtk_file_chooser_add_filter g
                     (gtk_file_filter_add_pattern g (c_str buf) (s1\<lparr>pattern := Some buf\<rparr>))))"
    using j fits unfolding add_extension_def Let_def ext_def n_def s1_def by simp
  from assms obtain b where b: "sprintf (pattern s1) ext = Inr b"
    and s': "s' = gtk_file_chooser_add_filter g
                   (gtk_file_filter_add_pattern g (c_str b) (s1\<lparr>pattern := Some b\<rparr>))"
    unfolding eq by (cases "sprintf (pattern s1) ext") auto
  have "c_str b = ''*.'' @ c_str ext" using b by (rule sprintf_Inr)
  then show ?thesis
    using j rest
    by (simp add: s' gtk_file_chooser_add_filter_def gtk_file_filter_add_pattern_def ext_def)
qed

lemma add_extension_write_safe:
  assumes inv: "buf_inv s"
    and fit: "j < length (extensions f) \<Longrightarrow> strlen (extensions f ! j) + 3 < 2147483648"
  shows "write_safe (add_extension f g j s)"
proof (cases "j < length (extensions f)")
  case False
  then show ?thesis by (simp add: add_extension_def write_safe_def)
next
  case j: True
  define ext where "ext = extensions f ! j"
  define n where "n = strlen ext + 3"
  have small: "n < 2147483648" using fit j by (simp add: n_def ext_def)
  have el: "int32 (int (strlen ext)) = int (strlen ext)"
    using small by (intro int32_id) (simp_all add: n_def)
  have cap: "3 + int (strlen ext) = int n" "\<not> int n > INT_MAX"
    using small by (simp_all add: n_def INT_MAX_def)
  have sz: "size_t (int n) = n"
    using small by (subst size_t_id) simp_all
  define s1 where "s1 = (if int n > pattern_cap s
      then s\<lparr>pattern := Some (uiprivRealloc (pattern s) n), pattern_cap := int n\<rparr>
      else s)"
  have inv1: "buf_inv s1" using inv by (simp add: s1_def buf_inv_def length_uiprivRealloc)
  have big: "int n \<le> pattern_cap s1" by (simp add: s1_def)
  from inv1 big obtain buf where buf: "pattern s1 = Some buf" "n \<le> length buf"
    by (cases "pattern s1") (auto simp: buf_inv_def n_def)
  from sprintf_fits[of ext buf] buf obtain b where
    b: "sprintf (Some buf) ext = Inr b" "length b = length buf"
    by (auto simp: n_def)
  have step: "add_extension f g j s = Inr (gtk_file_chooser_add_filter g
                     (gtk_file_filter_add_pattern g (c_str b) (s1\<lparr>pattern := Some b\<rparr>)))"
  proof (cases "int n > pattern_cap s")
    case True
    then show ?thesis using j b buf
      by (simp add: add_extension_def Let_def ext_def[symmetric] el cap sz s1_def)
  next
    case False
    then show ?thesis using j b buf
      by (simp add: add_extension_def Let_def ext_def[symmetric] el cap sz s1_def)
  qed
  have "buf_inv (s1\<lparr>pattern := Some b\<rparr>)" using inv1 buf b by (simp add: buf_inv_def)
  then show ?thesis
    unfolding step
    by (simp add: write_safe_def gtk_file_chooser_add_filter_def
          gtk_file_filter_add_pattern_def buf_inv_def)
qed

lemma add_extension_fault:
  assumes "add_extension f g j s = Inl ReadOutOfBounds"
  shows "length (extensions f) \<le> j"
proof (rule ccontr)
  assume "\<not> length (extensions f) \<le> j"
  with assms obtain p where "sprintf p (extensions f ! j) = Inl ReadOutOfBounds"
    by (auto simp: add_extension_def Let_def split: sum.splits if_splits)
  then show False by (auto dest: sprintf_fault)
qed

lemma add_extension_with_parent:
  "add_extension f g j (with_parent p s) = map_sum id (with_parent p) (add_extension f g j s)"
  by (simp add: add_extension_def Let_def with_parent_def gtk_file_chooser_add_filter_def
        gtk_file_filter_add_pattern_def split: sum.splits)

lemma ext_loop_Inr:
  assumes "run_loop (add_extension f g) [0..<n] s = Inr s'" and "g < length (gfilters s)"
  shows "n \<le> length (extensions f)
     \<and> fcd s' = (fcd s)\<lparr>fc_filters := fc_filters (fcd s) @ replicate n g\<rparr>
     \<and> gfilters s' = (gfilters s)[g := (gfilters s ! g)\<lparr>patterns :=
           patterns (gfilters s ! g) @ map (\<lambda>e. ''*.'' @ c_str e) (take n (extensions f))\<rparr>]"
  using assms(1)
proof (induction n arbitrary: s')
  case 0
  then show ?case by simp
next
  case (Suc n)
  from Suc.prems obtain s1 where run: "run_loop (add_extension f g) [0..<n] s = Inr s1"
    and last: "add_extension f g n s1 = Inr s'"
    by (auto simp: run_loop_snoc split: sum.splits)
  note ih = Suc.IH[OF run]
  note st = add_extension_Inr[OF last]
  from st have n: "n < length (extensions f)" by simp
  have fc: "fcd s' = (fcd s)\<lparr>fc_filters := fc_filters (fcd s) @ replicate (Suc n) g\<rparr>"
    using ih st by (simp add: replicate_append_same)
  have gf: "gfilters s' = (gfilters s)[g := (gfilters s ! g)\<lparr>patterns :=
       patterns (gfilters s ! g) @ map (\<lambda>e. ''*.'' @ c_str e) (take (Suc n) (extensions f))\<rparr>]"
    using ih st assms(2) n by (simp add: take_Suc_conv_app_nth)
  show ?case using n fc gf by simp
qed

subsection \<open>The outer loop\<close>

lemma add_filter_unfold:
  "i < length filters \<Longrightarrow>
   add_filter filters i s =
     run_loop (add_extension (filters ! i) (length (gfilters s)))
       [0..<nat (extensions_len (filters ! i))]
       (s\<lparr>gfilters := gfilters s @ [\<lparr>filter_name = Some (name (filters ! i)), patterns = []\<rparr>]\<rparr>)"
  by (simp add: add_filter_def Let_def gtk_file_filter_new_def gtk_file_filter_set_name_def
        for_loop_def)

lemma add_filter_Inr:
  assumes "add_filter filters i s = Inr s'"
  shows "i < length filters
     \<and> nat (extensions_len (filters ! i)) \<le> length (extensions (filters ! i))
     \<and> fcd s' = (fcd s)\<lparr>fc_filters := fc_filters (fcd s)
            @ replicate (nat (extensions_len (filters ! i))) (length (gfilters s))\<rparr>
     \<and> gfilters s' = gfilters s @ [filter_object (filters ! i)]"
proof -
  from assms have i: "i < length filters"
    by (auto simp: add_filter_def split: if_splits)
  note run = assms[unfolded add_filter_unfold[OF i]]
  from ext_loop_Inr[OF run] i show ?thesis
    by (simp add: filter_object_def)
qed

lemma add_filter_write_safe:
  assumes "buf_inv s" and "short_extensions filters"
  shows "write_safe (add_filter filters i s)"
proof (cases "i < length filters")
  case False
  then show ?thesis by (simp add: add_filter_def write_safe_def)
next
  case True
  have fit: "strlen (extensions (filters ! i) ! j) + 3 < 2147483648"
    if "j < length (extensions (filters ! i))" for j
  proof -
    have "filters ! i \<in> set filters" using True by simp
    moreover have "extensions (filters ! i) ! j \<in> set (extensions (filters ! i))"
      using that by simp
    ultimately show ?thesis using assms(2) unfolding short_extensions_def by blast
  qed
  show ?thesis
    unfolding add_filter_unfold[OF True]
    using assms(1)
    by (intro run_loop_write_safe add_extension_write_safe fit) (simp_all add: buf_inv_def)
qed

lemma add_filter_fault:
  assumes "add_filter filters i s = Inl ReadOutOfBounds"
  shows "length filters \<le> i
     \<or> \<not> nat (extensions_len (filters ! i)) \<le> length (extensions (filters ! i))"
proof (cases "i < length filters")
  case False
  then show ?thesis by simp
next
  case True
  from assms[unfolded add_filter_unfold[OF True]] run_loop_fault
  obtain j t where "j \<in> set [0..<nat (extensions_len (filters ! i))]"
    and "add_extension (filters ! i) (length (gfilters s)) j t = Inl ReadOutOfBounds"
    by meson
  then show ?thesis using add_extension_fault by fastforce
qed

lemma add_filter_with_parent:
  "add_filter filters i (with_parent p s) = map_sum id (with_parent p) (add_filter filters i s)"
proof (cases "i < length filters")
  case False
  then show ?thesis by (simp add: add_filter_def)
next
  case True
  let ?f = "filters ! i"
  let ?new = "\<lparr>filter_name = Some (name ?f), patterns = []\<rparr>"
  have st: "(with_parent p s)\<lparr>gfilters := gfilters (with_parent p s) @ [?new]\<rparr>
      = with_parent p (s\<lparr>gfilters := gfilters s @ [?new]\<rparr>)"
    by (simp add: with_parent_def)
  have len: "length (gfilters (with_parent p s)) = length (gfilters s)"
    by (simp add: with_parent_def)
  show ?thesis
    unfolding add_filter_unfold[OF True] st len
    by (rule run_loop_map) (rule add_extension_with_parent)
qed

lemma filter_loop_Inr:
  assumes "run_loop (add_filter filters) [0..<n] s = Inr s'" and "gfilters s = []"
  shows "n \<le> length filters
     \<and> (\<forall>i<n. nat (extensions_len (filters ! i)) \<le> length (extensions (filters ! i)))
     \<and> fcd s' = (fcd s)\<lparr>fc_filters := fc_filters (fcd s) @ filter_refs filters n\<rparr>
     \<and> gfilters s' = map filter_object (take n filters)"
  using assms(1)
proof (induction n arbitrary: s')
  case 0
  then show ?case using assms(2) by (simp add: filter_refs_def)
next
  case (Suc n)
  from Suc.prems obtain s1 where run: "run_loop (add_filter filters) [0..<n] s = Inr s1"
    and last: "add_filter filters n s1 = Inr s'"
    by (auto simp: run_loop_snoc split: sum.splits)
  note ih = Suc.IH[OF run]
  note st = add_filter_Inr[OF last]
  from st have n: "n < length filters" by simp
  have len: "length (gfilters s1) = n" using ih n by simp
  have bounds: "\<forall>i<Suc n. nat (extensions_len (filters ! i)) \<le> length (extensions (filters ! i))"
    using ih st by (auto simp: less_Suc_eq)
  have fc: "fcd s' = (fcd s)\<lparr>fc_filters := fc_filters (fcd s) @ filter_refs filters (Suc n)\<rparr>"
    using ih st len by (simp add: filter_refs_def)
  have gf: "gfilters s' = map filter_object (take (Suc n) filters)"
    using ih st n by (simp add: take_Suc_conv_app_nth)
  show ?case using n bounds fc gf by simp
qed

subsection \<open>filedialog as a whole\<close>

lemma filedialog_unfold:
  "filedialog parent mode confirm filters filters_len io =
     (case run_loop (add_filter filters) [0..<nat filters_len]
             \<lparr>fcd = configured parent mode confirm, gfilters = [], pattern = None, pattern_cap = 0\<rparr> of
        Inl e \<Rightarrow> Inl e
      | Inr s \<Rightarrow>
          Inr \<lparr>dialog = fcd s, filter_objects = gfilters s,
               returned = (if gtk_dialog_run io \<noteq> GTK_RESPONSE_ACCEPT then None
                           else gtk_file_chooser_get_filename io)\<rparr>)"
  by (simp add: filedialog_def Let_def for_loop_def configured_def
        gtk_file_chooser_dialog_new_def gtk_file_chooser_set_local_only_def
        gtk_file_chooser_set_select_multiple_def gtk_file_chooser_set_show_hidden_def
        gtk_file_chooser_set_do_overwrite_confirmation_def
        gtk_file_chooser_set_create_folders_def)

lemma filedialog_Inr:
  assumes "filedialog parent mode confirm filters filters_len io = Inr r"
  shows "dialog r = (configured parent mode confirm)\<lparr>fc_filters := filter_refs filters (nat filters_len)\<rparr>"
    and "filter_objects r = map filter_object (take (nat filters_len) filters)"
    and "returned r = (if gtk_dialog_run io \<noteq> GTK_RESPONSE_ACCEPT then None
                       else gtk_file_chooser_get_filename io)"
proof -
  let ?s0 = "\<lparr>fcd = configured parent mode confirm, gfilters = [], pattern = None, pattern_cap = 0\<rparr>"
  from assms obtain s where run: "run_loop (add_filter filters) [0..<nat filters_len] ?s0 = Inr s"
    and r: "r = \<lparr>dialog = fcd s, filter_objects = gfilters s,
               returned = (if gtk_dialog_run io \<noteq> GTK_RESPONSE_ACCEPT then None
                           else gtk_file_chooser_get_filename io)\<rparr>"
    unfolding filedialog_unfold
    by (cases "run_loop (add_filter filters) [0..<nat filters_len] ?s0") auto
  from filter_loop_Inr[OF run] have
    fc: "fcd s = (configured parent mode confirm)\<lparr>fc_filters := filter_refs filters (nat filters_len)\<rparr>"
    and gf: "gfilters s = map filter_object (take (nat filters_len) filters)"
    by (simp_all add: configured_def)
  show "dialog r = (configured parent mode confirm)\<lparr>fc_filters := filter_refs filters (nat filters_len)\<rparr>"
    by (simp add: r fc)
  show "filter_objects r = map filter_object (take (nat filters_len) filters)"
    by (simp add: r gf)
  show "returned r = (if gtk_dialog_run io \<noteq> GTK_RESPONSE_ACCEPT then None
                       else gtk_file_chooser_get_filename io)"
    by (simp add: r)
qed

lemma filedialog_fault_is_read:
  assumes "short_extensions filters"
    and "filedialog parent mode confirm filters filters_len io = Inl e"
  shows "e = ReadOutOfBounds"
proof -
  let ?s0 = "\<lparr>fcd = configured parent mode confirm, gfilters = [], pattern = None, pattern_cap = 0\<rparr>"
  have "buf_inv ?s0" by (simp add: buf_inv_def)
  then have "write_safe (run_loop (add_filter filters) [0..<nat filters_len] ?s0)"
    by (rule run_loop_write_safe[rotated]) (rule add_filter_write_safe[OF _ assms(1)])
  then show ?thesis
    using assms(2) unfolding filedialog_unfold by (auto simp: write_safe_def split: sum.splits)
qed

lemma filedialog_no_write_fault:
  assumes "short_extensions filters"
  shows "filedialog parent mode confirm filters filters_len io \<noteq> Inl WriteOutOfBounds"
  using filedialog_fault_is_read[OF assms] by fastforce

lemma filedialog_no_overflow:
  assumes "short_extensions filters"
  shows "filedialog parent mode confirm filters filters_len io \<noteq> Inl SignedOverflow"
  using filedialog_fault_is_read[OF assms] by fastforce

lemma filedialog_no_read_fault:
  assumes "in_bounds filters filters_len"
  shows "filedialog parent mode confirm filters filters_len io \<noteq> Inl ReadOutOfBounds"
proof
  let ?s0 = "\<lparr>fcd = configured parent mode confirm, gfilters = [], pattern = None, pattern_cap = 0\<rparr>"
  assume "filedialog parent mode confirm filters filters_len io = Inl ReadOutOfBounds"
  then have "run_loop (add_filter filters) [0..<nat filters_len] ?s0 = Inl ReadOutOfBounds"
    unfolding filedialog_unfold by (auto split: sum.splits)
  then obtain i t where i: "i < nat filters_len"
    and flt: "add_filter filters i t = Inl ReadOutOfBounds"
    by (auto dest: run_loop_fault)
  from flt have "length filters \<le> i
     \<or> \<not> nat (extensions_len (filters ! i)) \<le> length (extensions (filters ! i))"
    by (rule add_filter_fault)
  moreover have "i < length filters" using i assms by (simp add: in_bounds_def)
  moreover from this have "filters ! i \<in> set filters" by simp
  ultimately show False using assms by (auto simp: in_bounds_def)
qed

lemma filedialog_total:
  assumes "in_bounds filters filters_len" and "short_extensions filters"
  shows "\<exists>r. filedialog parent mode confirm filters filters_len io = Inr r"
proof (cases "filedialog parent mode confirm filters filters_len io")
  case (Inl e)
  with filedialog_fault_is_read[OF assms(2)] filedialog_no_read_fault[OF assms(1)]
  show ?thesis by fastforce
next
  case (Inr r)
  then show ?thesis by blast
qed

lemma filedialog_no_filters:
  assumes "filters_len \<le> 0"
  shows "filedialog parent mode confirm filters filters_len io =
     Inr \<lparr>dialog = configured parent mode confirm, filter_objects = [],
          returned = (if gtk_dialog_run io \<noteq> GTK_RESPONSE_ACCEPT then None
                      else gtk_file_chooser_get_filename io)\<rparr>"
  using assms unfolding filedialog_unfold by simp

lemma filedialog_parent:
  "filedialog parent mode confirm filters filters_len io =
     map_sum id (anchored parent) (filedialog p mode confirm filters filters_len io)"
proof -
  let ?s0 = "\<lambda>p. \<lparr>fcd = configured p mode confirm, gfilters = [], pattern = None, pattern_cap = 0\<rparr>"
  have "?s0 parent = with_parent parent (?s0 p)"
    by (simp add: with_parent_def configured_def)
  then have "run_loop (add_filter filters) [0..<nat filters_len] (?s0 parent) =
      map_sum id (with_parent parent) (run_loop (add_filter filters) [0..<nat filters_len] (?s0 p))"
    by (simp only: run_loop_map[of "add_filter filters" "with_parent parent", OF add_filter_with_parent])
  then show ?thesis
    unfolding filedialog_unfold
    by (auto simp: anchored_def with_parent_def split: sum.splits)
qed

lemma length_filter_refs:
  "length (filter_refs filters n) = (\<Sum>i<n. nat (extensions_len (filters ! i)))"
  by (induction n) (simp_all add: filter_refs_def)

lemma no_filter_dialog:
  "filedialog parent mode confirm [] 0 io =
     Inr \<lparr>dialog = configured parent mode confirm, filter_objects = [],
          returned = (if gtk_dialog_run io \<noteq> GTK_RESPONSE_ACCEPT then None
                      else gtk_file_chooser_get_filename io)\<rparr>"
  by (rule filedialog_no_filters) simp

lemma fixed_flags_configured: "fixed_flags ((configured parent mode confirm)\<lparr>fc_filters := fs\<rparr>)"
  by (simp add: fixed_flags_def configured_def)

lemma windowWindow_None: "windowWindow None = None"
  by (simp add: windowWindow_def)

lemma strlen_replicate: "c \<noteq> NUL \<Longrightarrow> strlen (replicate n c) = n"
  by (simp add: strlen_def c_str_id)

lemma sprintf_fault_iff:
  "sprintf p ext = Inl WriteOutOfBounds \<longleftrightarrow>
     (case p of None \<Rightarrow> 0 | Some b \<Rightarrow> length b) < strlen ext + 3"
  by (simp add: sprintf_def Let_def strlen_def split: option.splits)

lemma add_filter_calls_count:
  assumes "filedialog parent mode confirm filters filters_len io = Inr r"
  shows "length (fc_filters (dialog r)) = (\<Sum>i<nat filters_len. nat (extensions_len (filters ! i)))"
  using filedialog_Inr(1)[OF assms] by (simp add: length_filter_refs)

lemma accept_returns_toolkit_filename:
  "gtk_dialog_run io = GTK_RESPONSE_ACCEPT \<Longrightarrow>
   \<exists>r. uiSaveFile parent io = Inr r \<and> returned r = gtk_file_chooser_get_filename io"
  by (simp add: uiSaveFile_def no_filter_dialog)

lemma add_extension_overflow:
  assumes "j < length (extensions f)"
    and "2147483645 \<le> strlen (extensions f ! j)" and "strlen (extensions f ! j) \<le> 2147483647"
  shows "add_extension f g j s = Inl SignedOverflow"
proof -
  have "int32 (int (strlen (extensions f ! j))) = int (strlen (extensions f ! j))"
    using assms(3) by (intro int32_id) simp_all
  then show ?thesis
    using assms by (simp add: add_extension_def Let_def INT_MAX_def)
qed

section \<open>The claims\<close>

text \<open>
  C1. The claim is that every filter supplied becomes exactly one filter entry of the
  chooser, so that the chooser has as many entries as there are filters. In the code the
  call of \<open>gtk_file_chooser_add_filter\<close> sits inside the loop over the extensions: a
  filter without extensions is never handed to the chooser, and a filter with two
  extensions is handed to it twice (in general the number of calls is the number of
  extensions, \<open>add_filter_calls_count\<close>). The name and the patterns of each filter object
  are as claimed.
\<close>

theorem uiSaveFile2_one_entry_per_extension:
  "(\<exists>r. uiSaveFile2 parent [\<lparr>name = ''All files'', extensions = [], extensions_len = 0\<rparr>] 1 io = Inr r
        \<and> fc_filters (dialog r) = []
        \<and> filter_objects r = [\<lparr>filter_name = Some ''All files'', patterns = []\<rparr>])
 \<and> (\<exists>r. uiSaveFile2 parent
            [\<lparr>name = ''Images'', extensions = [''png'', ''jpg''], extensions_len = 2\<rparr>] 1 io = Inr r
        \<and> fc_filters (dialog r) = [0, 0]
        \<and> filter_objects r = [\<lparr>filter_name = Some ''Images'', patterns = [''*.png'', ''*.jpg'']\<rparr>])"
proof (intro conjI)
  let ?a = "[\<lparr>name = ''All files'', extensions = [], extensions_len = 0\<rparr>]"
  let ?b = "[\<lparr>name = ''Images'', extensions = [''png'', ''jpg''], extensions_len = 2\<rparr>]"
  have "in_bounds ?a 1" "short_extensions ?a"
    by (simp_all add: in_bounds_def short_extensions_def)
  then obtain r where r: "uiSaveFile2 parent ?a 1 io = Inr r"
    unfolding uiSaveFile2_def using filedialog_total by blast
  note fr = filedialog_Inr[OF r[unfolded uiSaveFile2_def]]
  have "fc_filters (dialog r) = []"
    by (simp add: fr filter_refs_def)
  moreover have "filter_objects r = [\<lparr>filter_name = Some ''All files'', patterns = []\<rparr>]"
    by (simp add: fr filter_object_def)
  ultimately show "\<exists>r. uiSaveFile2 parent ?a 1 io = Inr r \<and> fc_filters (dialog r) = []
        \<and> filter_objects r = [\<lparr>filter_name = Some ''All files'', patterns = []\<rparr>]"
    using r by blast
  have "in_bounds ?b 1" "short_extensions ?b"
    by (simp_all add: in_bounds_def short_extensions_def strlen_def c_str_def NUL_def)
  then obtain q where q: "uiSaveFile2 parent ?b 1 io = Inr q"
    unfolding uiSaveFile2_def using filedialog_total by blast
  note fq = filedialog_Inr[OF q[unfolded uiSaveFile2_def]]
  have "fc_filters (dialog q) = [0, 0]"
    by (simp add: fq filter_refs_def numeral_2_eq_2)
  moreover have "filter_objects q = [\<lparr>filter_name = Some ''Images'', patterns = [''*.png'', ''*.jpg'']\<rparr>]"
    by (simp add: fq filter_object_def c_str_def NUL_def)
  ultimately show "\<exists>r. uiSaveFile2 parent ?b 1 io = Inr r \<and> fc_filters (dialog r) = [0, 0]
        \<and> filter_objects r = [\<lparr>filter_name = Some ''Images'', patterns = [''*.png'', ''*.jpg'']\<rparr>]"
    using q by blast
qed

text \<open>
  C2. When the response of the dialog is anything but accept, each of the four file dialog
  functions returns normally with a null path. The three functions without filters always
  return. \<open>uiSaveFile2\<close> returns the null path whenever it gets as far as running the
  dialog, and it does get there when the array lengths are within the arrays and the
  extensions are short.
\<close>

theorem cancel_returns_no_selection:
  assumes "gtk_dialog_run io \<noteq> GTK_RESPONSE_ACCEPT"
  shows "(\<exists>r. uiOpenFile parent io = Inr r \<and> returned r = None)
       \<and> (\<exists>r. uiOpenFolder parent io = Inr r \<and> returned r = None)
       \<and> (\<exists>r. uiSaveFile parent io = Inr r \<and> returned r = None)
       \<and> (\<forall>r. uiSaveFile2 parent filters filters_len io = Inr r \<longrightarrow> returned r = None)
       \<and> (in_bounds filters filters_len \<and> short_extensions filters \<longrightarrow>
            (\<exists>r. uiSaveFile2 parent filters filters_len io = Inr r \<and> returned r = None))"
proof -
  have 1: "\<exists>r. uiOpenFile parent io = Inr r \<and> returned r = None"
    using assms by (simp add: uiOpenFile_def no_filter_dialog)
  have 2: "\<exists>r. uiOpenFolder parent io = Inr r \<and> returned r = None"
    using assms by (simp add: uiOpenFolder_def no_filter_dialog)
  have 3: "\<exists>r. uiSaveFile parent io = Inr r \<and> returned r = None"
    using assms by (simp add: uiSaveFile_def no_filter_dialog)
  have 4: "returned r = None" if "uiSaveFile2 parent filters filters_len io = Inr r" for r
    using filedialog_Inr(3)[OF that[unfolded uiSaveFile2_def]] assms by simp
  have 5: "\<exists>r. uiSaveFile2 parent filters filters_len io = Inr r \<and> returned r = None"
    if "in_bounds filters filters_len \<and> short_extensions filters"
  proof -
    from that obtain r where "uiSaveFile2 parent filters filters_len io = Inr r"
      unfolding uiSaveFile2_def using filedialog_total by blast
    with 4 show ?thesis by blast
  qed
  from 1 2 3 4 5 show ?thesis by blast
qed

theorem cancel_returns_no_selection_witness:
  "(\<exists>r. uiOpenFile (Some (uiWindow 1))
          \<lparr>gtk_dialog_run = GTK_RESPONSE_CANCEL, gtk_file_chooser_get_filename = Some ''/tmp/a''\<rparr> = Inr r
        \<and> returned r = None)
 \<and> (\<exists>r. uiSaveFile2 (Some (uiWindow 1))
          [\<lparr>name = ''Images'', extensions = [''png'', ''jpg''], extensions_len = 2\<rparr>] 1
          \<lparr>gtk_dialog_run = GTK_RESPONSE_CANCEL, gtk_file_chooser_get_filename = Some ''/tmp/a''\<rparr> = Inr r
        \<and> returned r = None)"
proof -
  let ?io = "\<lparr>gtk_dialog_run = GTK_RESPONSE_CANCEL, gtk_file_chooser_get_filename = Some ''/tmp/a''\<rparr>"
  let ?fs = "[\<lparr>name = ''Images'', extensions = [''png'', ''jpg''], extensions_len = 2\<rparr>]"
  have c: "gtk_dialog_run ?io \<noteq> GTK_RESPONSE_ACCEPT"
    by (simp add: GTK_RESPONSE_CANCEL_def GTK_RESPONSE_ACCEPT_def)
  have w: "in_bounds ?fs 1 \<and> short_extensions ?fs"
    by (simp add: in_bounds_def short_extensions_def strlen_def c_str_def NUL_def)
  from cancel_returns_no_selection[OF c, of "Some (uiWindow 1)" ?fs 1] w
  show ?thesis by blast
qed

text \<open>
  C3. With \<open>filters_len = 0\<close>, whatever the filters pointer, \<open>uiSaveFile2\<close> is
  \<open>uiSaveFile\<close>: the same dialog, no filter object created, none handed to the chooser,
  and the same value returned for the same response.
\<close>

theorem uiSaveFile2_no_filters:
  "uiSaveFile2 parent filters 0 io = uiSaveFile parent io
 \<and> uiSaveFile2 parent [] 0 io = uiSaveFile parent io
 \<and> (\<exists>r. uiSaveFile2 parent filters 0 io = Inr r
        \<and> fc_filters (dialog r) = [] \<and> filter_objects r = [])"
  by (simp add: uiSaveFile2_def uiSaveFile_def filedialog_no_filters configured_def)

text \<open>
  C4. Every pattern registered with a filter object is the two characters \<open>*.\<close> followed
  by the extension (the write is three bytes longer than the extension: the two characters
  and the terminator). The patterns of all filter objects of a call are exactly these, in
  order; the call completes for arrays within bounds and short extensions; and whatever
  bytes an earlier pattern left in the shared buffer, the string read back after the
  formatting is the new pattern alone.
\<close>

theorem pattern_is_star_dot_extension:
  assumes "plain_extensions filters"
  shows "(\<forall>r. uiSaveFile2 parent filters filters_len io = Inr r \<longrightarrow>
            map patterns (filter_objects r) =
              map (\<lambda>f. map (\<lambda>e. ''*.'' @ e) (take (nat (extensions_len f)) (extensions f)))
                (take (nat filters_len) filters))
       \<and> (in_bounds filters filters_len \<and> short_extensions filters \<longrightarrow>
            (\<exists>r. uiSaveFile2 parent filters filters_len io = Inr r))
       \<and> (\<forall>f \<in> set filters. \<forall>e \<in> set (extensions f). \<forall>stale b.
            sprintf (Some stale) e = Inr b \<longrightarrow> c_str b = ''*.'' @ e)"
proof (intro conjI allI impI ballI)
  fix r
  assume r: "uiSaveFile2 parent filters filters_len io = Inr r"
  have plain: "\<forall>e \<in> set (take n (extensions f)). c_str e = e"
    if "f \<in> set (take (nat filters_len) filters)" for f n
  proof
    fix e assume "e \<in> set (take n (extensions f))"
    then have "e \<in> set (extensions f)" by (rule in_set_takeD)
    moreover from that have "f \<in> set filters" by (rule in_set_takeD)
    ultimately have "NUL \<notin> set e" using assms by (simp add: plain_extensions_def)
    then show "c_str e = e" by (rule c_str_id)
  qed
  show "map patterns (filter_objects r) =
      map (\<lambda>f. map (\<lambda>e. ''*.'' @ e) (take (nat (extensions_len f)) (extensions f)))
        (take (nat filters_len) filters)"
    unfolding filedialog_Inr(2)[OF r[unfolded uiSaveFile2_def]] map_map
    by (rule map_cong[OF refl]) (simp add: filter_object_def plain)
next
  assume "in_bounds filters filters_len \<and> short_extensions filters"
  then show "\<exists>r. uiSaveFile2 parent filters filters_len io = Inr r"
    unfolding uiSaveFile2_def using filedialog_total by blast
next
  fix f e stale b
  assume "f \<in> set filters" "e \<in> set (extensions f)" "sprintf (Some stale) e = Inr b"
  then have "c_str b = ''*.'' @ c_str e" "NUL \<notin> set e"
    using assms by (auto dest: sprintf_Inr simp: plain_extensions_def)
  then show "c_str b = ''*.'' @ e" by (simp add: c_str_id)
qed

theorem pattern_is_star_dot_extension_witness:
  "(\<exists>r. uiSaveFile2 None [\<lparr>name = ''Images'', extensions = [''jpeg'', ''gz''], extensions_len = 2\<rparr>] 1
           \<lparr>gtk_dialog_run = GTK_RESPONSE_ACCEPT, gtk_file_chooser_get_filename = Some ''/tmp/a.gz''\<rparr>
         = Inr r
       \<and> map patterns (filter_objects r) = [[''*.jpeg'', ''*.gz'']])
 \<and> sprintf (Some (''*.jpeg'' @ [NUL])) ''gz'' = Inr (''*.gz'' @ [NUL, CHR ''g'', NUL])
 \<and> c_str (''*.gz'' @ [NUL, CHR ''g'', NUL]) = ''*.gz''"
proof -
  let ?io = "\<lparr>gtk_dialog_run = GTK_RESPONSE_ACCEPT, gtk_file_chooser_get_filename = Some ''/tmp/a.gz''\<rparr>"
  let ?fs = "[\<lparr>name = ''Images'', extensions = [''jpeg'', ''gz''], extensions_len = 2\<rparr>]"
  have p: "plain_extensions ?fs" by (simp add: plain_extensions_def NUL_def)
  have w: "in_bounds ?fs 1 \<and> short_extensions ?fs"
    by (simp add: in_bounds_def short_extensions_def strlen_def c_str_def NUL_def)
  have s: "sprintf (Some (''*.jpeg'' @ [NUL])) ''gz'' = Inr (''*.gz'' @ [NUL, CHR ''g'', NUL])"
    by (simp add: sprintf_def c_str_def NUL_def)
  note t = pattern_is_star_dot_extension[OF p, of None 1 ?io]
  from t w obtain r where r: "uiSaveFile2 None ?fs 1 ?io = Inr r" by blast
  from t r have "map patterns (filter_objects r) =
      map (\<lambda>f. map (\<lambda>e. ''*.'' @ e) (take (nat (extensions_len f)) (extensions f)))
        (take (nat 1) ?fs)"
    by blast
  then have "map patterns (filter_objects r) = [[''*.jpeg'', ''*.gz'']]"
    by (simp add: numeral_2_eq_2)
  moreover from t have "\<forall>stale b. sprintf (Some stale) ''gz'' = Inr b \<longrightarrow> c_str b = ''*.'' @ ''gz''"
    by simp
  with s have "c_str (''*.gz'' @ [NUL, CHR ''g'', NUL]) = ''*.gz''"
    by fastforce
  ultimately show ?thesis using r s by (intro conjI exI[of _ r]) assumption+
qed

text \<open>
  C5. A null parent is passed on as a null window without being looked into, the dialog
  of each of the four file functions then has no parent, and the outcome of each of the six
  functions with a null parent is the outcome with any parent, but for the parent field of
  the dialog.
\<close>

theorem absent_parent_unanchored:
  "windowWindow None = None
 \<and> uiOpenFile None io = map_sum id (anchored None) (uiOpenFile parent io)
 \<and> uiOpenFolder None io = map_sum id (anchored None) (uiOpenFolder parent io)
 \<and> uiSaveFile None io = map_sum id (anchored None) (uiSaveFile parent io)
 \<and> uiSaveFile2 None filters filters_len io =
       map_sum id (anchored None) (uiSaveFile2 parent filters filters_len io)
 \<and> uiMsgBox None title description = (uiMsgBox parent title description)\<lparr>md_parent := None\<rparr>
 \<and> uiMsgBoxError None title description =
       (uiMsgBoxError parent title description)\<lparr>md_parent := None\<rparr>
 \<and> (\<forall>r. uiOpenFile None io = Inr r \<or> uiOpenFolder None io = Inr r \<or> uiSaveFile None io = Inr r
          \<or> uiSaveFile2 None filters filters_len io = Inr r \<longrightarrow> fc_parent (dialog r) = None)"
proof -
  note fp = filedialog_parent[of None _ _ _ _ _ "windowWindow parent"]
  have 1: "uiOpenFile None io = map_sum id (anchored None) (uiOpenFile parent io)"
    unfolding uiOpenFile_def windowWindow_None by (rule fp)
  have 2: "uiOpenFolder None io = map_sum id (anchored None) (uiOpenFolder parent io)"
    unfolding uiOpenFolder_def windowWindow_None by (rule fp)
  have 3: "uiSaveFile None io = map_sum id (anchored None) (uiSaveFile parent io)"
    unfolding uiSaveFile_def windowWindow_None by (rule fp)
  have 4: "uiSaveFile2 None filters filters_len io =
       map_sum id (anchored None) (uiSaveFile2 parent filters filters_len io)"
    unfolding uiSaveFile2_def windowWindow_None by (rule fp)
  have 5: "uiMsgBox None title description = (uiMsgBox parent title description)\<lparr>md_parent := None\<rparr>"
    by (simp add: uiMsgBox_def msgbox_def windowWindow_None)
  have 6: "uiMsgBoxError None title description =
       (uiMsgBoxError parent title description)\<lparr>md_parent := None\<rparr>"
    by (simp add: uiMsgBoxError_def msgbox_def windowWindow_None)
  have 7: "fc_parent (dialog r) = None"
    if "filedialog None mode confirm fs n io = Inr r" for mode confirm fs n r
    using filedialog_Inr(1)[OF that] by (simp add: configured_def)
  have 8: "\<forall>r. uiOpenFile None io = Inr r \<or> uiOpenFolder None io = Inr r \<or> uiSaveFile None io = Inr r
          \<or> uiSaveFile2 None filters filters_len io = Inr r \<longrightarrow> fc_parent (dialog r) = None"
    unfolding uiOpenFile_def uiOpenFolder_def uiSaveFile_def uiSaveFile2_def windowWindow_None
    using 7 by blast
  from windowWindow_None 1 2 3 4 5 6 8 show ?thesis by (intro conjI)
qed

theorem absent_parent_unanchored_witness:
  "\<exists>r. uiOpenFolder None
        \<lparr>gtk_dialog_run = GTK_RESPONSE_ACCEPT, gtk_file_chooser_get_filename = Some ''/home/u''\<rparr> = Inr r
      \<and> fc_parent (dialog r) = None \<and> returned r = Some ''/home/u''
      \<and> uiOpenFolder (Some (uiWindow 5))
           \<lparr>gtk_dialog_run = GTK_RESPONSE_ACCEPT, gtk_file_chooser_get_filename = Some ''/home/u''\<rparr>
         = Inr (anchored (Some 5) r)"
proof -
  let ?io = "\<lparr>gtk_dialog_run = GTK_RESPONSE_ACCEPT, gtk_file_chooser_get_filename = Some ''/home/u''\<rparr>"
  obtain r where r: "uiOpenFolder None ?io = Inr r"
    by (simp add: uiOpenFolder_def no_filter_dialog)
  with absent_parent_unanchored[of ?io "Some (uiWindow 5)"] have "fc_parent (dialog r) = None"
    by blast
  moreover have "returned r = Some ''/home/u''"
    using r by (auto simp: uiOpenFolder_def no_filter_dialog)
  moreover have "uiOpenFolder (Some (uiWindow 5)) ?io = Inr (anchored (Some 5) r)"
    using r by (auto simp: uiOpenFolder_def no_filter_dialog windowWindow_def anchored_def configured_def)
  ultimately show ?thesis using r by (intro exI[of _ r] conjI) assumption+
qed

text \<open>
  C6. \<open>uiMsgBox\<close> runs a modal message dialog with the title as primary text, the
  description as secondary text, the single button set OK and the message type "other";
  \<open>uiMsgBoxError\<close> differs in the message type "error" only. Neither returns a value: the
  dialog is all there is.
\<close>

theorem message_boxes:
  "uiMsgBox parent title description =
     \<lparr>md_parent = windowWindow parent, md_flags = GTK_DIALOG_MODAL, md_type = GTK_MESSAGE_OTHER,
      md_buttons = GTK_BUTTONS_OK, md_text = title, md_secondary_text = Some description\<rparr>
 \<and> uiMsgBoxError parent title description =
     \<lparr>md_parent = windowWindow parent, md_flags = GTK_DIALOG_MODAL, md_type = GTK_MESSAGE_ERROR,
      md_buttons = GTK_BUTTONS_OK, md_text = title, md_secondary_text = Some description\<rparr>"
  by (simp add: uiMsgBox_def uiMsgBoxError_def msgbox_def)

text \<open>
  C7. The dialog of \<open>uiSaveFile\<close> and every dialog that \<open>uiSaveFile2\<close> runs is a save
  dialog with overwrite confirmation and folder creation switched on; \<open>uiSaveFile2\<close> does
  run its dialog for arrays within bounds and short extensions.
\<close>

theorem save_dialogs_confirm_overwrite_and_create_folders:
  "(\<exists>r. uiSaveFile parent io = Inr r
        \<and> fc_action (dialog r) = GTK_FILE_CHOOSER_ACTION_SAVE
        \<and> do_overwrite_confirmation (dialog r) = Some True
        \<and> create_folders (dialog r) = Some True)
 \<and> (\<forall>r. uiSaveFile2 parent filters filters_len io = Inr r \<longrightarrow>
          fc_action (dialog r) = GTK_FILE_CHOOSER_ACTION_SAVE
        \<and> do_overwrite_confirmation (dialog r) = Some True
        \<and> create_folders (dialog r) = Some True)
 \<and> (in_bounds filters filters_len \<and> short_extensions filters \<longrightarrow>
       (\<exists>r. uiSaveFile2 parent filters filters_len io = Inr r))"
proof (intro conjI allI impI)
  show "\<exists>r. uiSaveFile parent io = Inr r
        \<and> fc_action (dialog r) = GTK_FILE_CHOOSER_ACTION_SAVE
        \<and> do_overwrite_confirmation (dialog r) = Some True
        \<and> create_folders (dialog r) = Some True"
    by (simp add: uiSaveFile_def no_filter_dialog configured_def)
next
  fix r assume r: "uiSaveFile2 parent filters filters_len io = Inr r"
  note d = filedialog_Inr(1)[OF r[unfolded uiSaveFile2_def]]
  show "fc_action (dialog r) = GTK_FILE_CHOOSER_ACTION_SAVE" by (simp add: d configured_def)
  show "do_overwrite_confirmation (dialog r) = Some True" by (simp add: d configured_def)
  show "create_folders (dialog r) = Some True" by (simp add: d configured_def)
next
  assume "in_bounds filters filters_len \<and> short_extensions filters"
  then show "\<exists>r. uiSaveFile2 parent filters filters_len io = Inr r"
    unfolding uiSaveFile2_def using filedialog_total by blast
qed

theorem save_dialogs_confirm_overwrite_and_create_folders_witness:
  "\<exists>r. uiSaveFile2 (Some (uiWindow 2))
          [\<lparr>name = ''Text'', extensions = [''txt''], extensions_len = 1\<rparr>] 1
          \<lparr>gtk_dialog_run = GTK_RESPONSE_ACCEPT, gtk_file_chooser_get_filename = Some ''/tmp/n.txt''\<rparr>
        = Inr r
      \<and> do_overwrite_confirmation (dialog r) = Some True
      \<and> create_folders (dialog r) = Some True"
proof -
  let ?io = "\<lparr>gtk_dialog_run = GTK_RESPONSE_ACCEPT, gtk_file_chooser_get_filename = Some ''/tmp/n.txt''\<rparr>"
  let ?fs = "[\<lparr>name = ''Text'', extensions = [''txt''], extensions_len = 1\<rparr>]"
  have w: "in_bounds ?fs 1 \<and> short_extensions ?fs"
    by (simp add: in_bounds_def short_extensions_def strlen_def c_str_def NUL_def)
  note t = save_dialogs_confirm_overwrite_and_create_folders[of "Some (uiWindow 2)" ?io ?fs 1]
  from t w obtain r where r: "uiSaveFile2 (Some (uiWindow 2)) ?fs 1 ?io = Inr r" by blast
  with t have "do_overwrite_confirmation (dialog r) = Some True" "create_folders (dialog r) = Some True"
    by blast+
  with r show ?thesis by (intro exI[of _ r] conjI) assumption+
qed

text \<open>
  C9. Whatever the mode, the dialog that \<open>filedialog\<close> runs has the same five flags:
  local-only off, multiple selection off, hidden files shown, overwrite confirmation on,
  folder creation on. This holds for the open-file and the select-folder dialogs as for the
  save dialogs.
\<close>

theorem same_flags_in_every_mode:
  "(\<forall>r. filedialog parent mode confirm filters filters_len io = Inr r \<longrightarrow> fixed_flags (dialog r))
 \<and> (\<exists>r. uiOpenFile w io = Inr r \<and> fixed_flags (dialog r)
        \<and> fc_action (dialog r) = GTK_FILE_CHOOSER_ACTION_OPEN)
 \<and> (\<exists>r. uiOpenFolder w io = Inr r \<and> fixed_flags (dialog r)
        \<and> fc_action (dialog r) = GTK_FILE_CHOOSER_ACTION_SELECT_FOLDER)
 \<and> (\<exists>r. uiSaveFile w io = Inr r \<and> fixed_flags (dialog r)
        \<and> fc_action (dialog r) = GTK_FILE_CHOOSER_ACTION_SAVE)
 \<and> (\<forall>r. uiSaveFile2 w filters filters_len io = Inr r \<longrightarrow> fixed_flags (dialog r))"
proof (intro conjI allI impI)
  fix r assume "filedialog parent mode confirm filters filters_len io = Inr r"
  from filedialog_Inr(1)[OF this] show "fixed_flags (dialog r)"
    by (simp add: fixed_flags_configured)
next
  fix r assume "uiSaveFile2 w filters filters_len io = Inr r"
  from filedialog_Inr(1)[OF this[unfolded uiSaveFile2_def]] show "fixed_flags (dialog r)"
    by (simp add: fixed_flags_configured)
qed (simp_all add: uiOpenFile_def uiOpenFolder_def uiSaveFile_def no_filter_dialog
       fixed_flags_def configured_def)

theorem same_flags_in_every_mode_witness:
  "\<exists>r. uiOpenFolder None
         \<lparr>gtk_dialog_run = GTK_RESPONSE_CANCEL, gtk_file_chooser_get_filename = None\<rparr> = Inr r
      \<and> local_only (dialog r) = Some False \<and> select_multiple (dialog r) = Some False
      \<and> show_hidden (dialog r) = Some True \<and> do_overwrite_confirmation (dialog r) = Some True
      \<and> create_folders (dialog r) = Some True"
proof -
  let ?io = "\<lparr>gtk_dialog_run = GTK_RESPONSE_CANCEL, gtk_file_chooser_get_filename = None\<rparr>"
  from same_flags_in_every_mode[of None GTK_FILE_CHOOSER_ACTION_SELECT_FOLDER "''_Open''" "[]" 0 ?io None]
  obtain r where "uiOpenFolder None ?io = Inr r" "fixed_flags (dialog r)" by blast
  then show ?thesis unfolding fixed_flags_def by (intro exI[of _ r] conjI) simp_all
qed

text \<open>
  C10, as stated for every extension length, fails. The length of the extension and the
  capacity are \<open>int\<close>s. For an extension of 2147483648 bytes (\<open>INT_MAX + 1\<close>) the length
  converted to \<open>int\<close> is \<open>INT_MIN\<close>, the sum \<open>3 + ext_len\<close> is negative (no overflow is
  involved), the test \<open>3 + ext_len > pattern_cap\<close> is false against the capacity 0, nothing is
  allocated, and \<open>sprintf\<close> writes through the null pointer: the capacity is 0 where the
  claim needs 2147483651.
\<close>

theorem pattern_capacity_counterexample:
  "uiSaveFile2 None
     [\<lparr>name = ''big'', extensions = [replicate 2147483648 (CHR ''a'')], extensions_len = 1\<rparr>] 1
     \<lparr>gtk_dialog_run = GTK_RESPONSE_CANCEL, gtk_file_chooser_get_filename = None\<rparr>
   = Inl WriteOutOfBounds"
proof -
  have len: "strlen (replicate 2147483648 (CHR ''a'')) = 2147483648"
    by (rule strlen_replicate) (simp add: NUL_def)
  show ?thesis
    unfolding uiSaveFile2_def filedialog_unfold
    by (simp add: add_filter_unfold add_extension_def len int32_def INT_MAX_def sprintf_def)
qed

text \<open>
  C10, amended. When every extension is shorter than 2147483645 bytes, so that its length
  plus 3 is an \<open>int\<close>, no formatting of a pattern writes past the capacity of the buffer
  (by \<open>sprintf_fault_iff\<close> a write fault is a capacity below the length plus 3) and no sum
  overflows, for every mode and every filter list; with arrays within bounds the call
  completes. The bound cannot be raised: from 2147483645 to 2147483647 bytes the sum
  \<open>3 + ext_len\<close> overflows (\<open>add_extension_overflow\<close>), and from 2147483648 bytes on the
  converted length is no longer the length.
\<close>

theorem pattern_writes_within_capacity:
  assumes "short_extensions filters"
  shows "filedialog parent mode confirm filters filters_len io \<noteq> Inl WriteOutOfBounds
       \<and> uiSaveFile2 w filters filters_len io \<noteq> Inl WriteOutOfBounds
       \<and> uiSaveFile2 w filters filters_len io \<noteq> Inl SignedOverflow
       \<and> (in_bounds filters filters_len \<longrightarrow> (\<exists>r. uiSaveFile2 w filters filters_len io = Inr r))"
  using assms filedialog_no_write_fault[OF assms] filedialog_no_overflow[OF assms] filedialog_total
  unfolding uiSaveFile2_def by blast

theorem pattern_writes_within_capacity_witness:
  "uiSaveFile2 None
     [\<lparr>name = ''Images'', extensions = [''png'', ''jpeg''], extensions_len = 2\<rparr>] 1
     \<lparr>gtk_dialog_run = GTK_RESPONSE_CANCEL, gtk_file_chooser_get_filename = None\<rparr>
   \<noteq> Inl WriteOutOfBounds"
proof -
  let ?fs = "[\<lparr>name = ''Images'', extensions = [''png'', ''jpeg''], extensions_len = 2\<rparr>]"
  have "short_extensions ?fs"
    by (simp add: short_extensions_def strlen_def c_str_def NUL_def)
  from pattern_writes_within_capacity[OF this] show ?thesis by blast
qed

end
